theory Spec2Isabelle
  imports Main
begin

section \<open>Strings\<close>

text \<open>
  JavaScript strings are modelled as \<^typ>\<open>string\<close>; the character classes below are the
  ASCII part of the JavaScript ones (\<open>\s\<close>, \<open>\d\<close>, \<open>\w\<close>, \<open>toLowerCase\<close>).
  Texts are taken to be ASCII, where the length of a string is its number of characters.
\<close>

definition is_space :: "char \<Rightarrow> bool" where
  "is_space c = (c \<in> set [CHR 0x09, CHR 0x0A, CHR 0x0B, CHR 0x0C, CHR 0x0D, CHR '' ''])"

definition is_digit :: "char \<Rightarrow> bool" where
  "is_digit c = (c \<in> set ''0123456789'')"

definition is_upper :: "char \<Rightarrow> bool" where
  "is_upper c = (c \<in> set ''ABCDEFGHIJKLMNOPQRSTUVWXYZ'')"

definition is_lower :: "char \<Rightarrow> bool" where
  "is_lower c = (c \<in> set ''abcdefghijklmnopqrstuvwxyz'')"

definition is_word_char :: "char \<Rightarrow> bool" where
  "is_word_char c = (is_upper c \<or> is_lower c \<or> is_digit c \<or> c = CHR ''_'')"

definition lower_char :: "char \<Rightarrow> char" where
  "lower_char c =
     (case map_of (zip ''ABCDEFGHIJKLMNOPQRSTUVWXYZ'' ''abcdefghijklmnopqrstuvwxyz'') c of
        Some l \<Rightarrow> l
      | None \<Rightarrow> c)"

definition toLowerCase :: "string \<Rightarrow> string" where
  "toLowerCase s = map lower_char s"

definition trim :: "string \<Rightarrow> string" where
  "trim s = rev (dropWhile is_space (rev (dropWhile is_space s)))"

text \<open>\<open>s.split(c)[0]\<close>: the text before the first occurrence of \<open>c\<close>.\<close>

definition before_first :: "char \<Rightarrow> string \<Rightarrow> string" where
  "before_first c s = takeWhile (\<lambda>x. x \<noteq> c) s"

text \<open>\<open>s.includes(t)\<close>: \<open>t\<close> occurs in \<open>s\<close> as a contiguous substring.\<close>

fun str_includes :: "string \<Rightarrow> string \<Rightarrow> bool" where
  "str_includes [] t = (t = [])"
| "str_includes (c # cs) t = (take (length t) (c # cs) = t \<or> str_includes cs t)"

text \<open>\<open>a || ''\<close> on a property that may be absent.\<close>

definition or_empty :: "string option \<Rightarrow> string" where
  "or_empty v = (case v of None \<Rightarrow> [] | Some s \<Rightarrow> s)"

section \<open>Deals, extracted identifiers and the allowed stages\<close>

type_synonym obj_id = nat

record deal_record =
  deal_id :: obj_id
  dealname :: "string option"
  loan_number :: "string option"
  full_address :: "string option"
  dealstage :: "string option"

record parsed =
  loanNumbers :: "string list"
  addresses :: "string list"
  dealNames :: "string list"

definition TARGET_STAGE_VALUES :: "string list" where
  "TARGET_STAGE_VALUES =
     [''presentationscheduled'', ''closedwon'', ''4447566'', ''4447567'', ''1085330955'',
      ''1067972413'', ''1067972416'', ''1269293461'', ''1015819060'', ''1015819061'',
      ''1018320194'', ''1018320195'', ''1015819063'', ''1018320196'', ''1018320197'']"

definition CONFIDENCE_THRESHOLD :: nat where
  "CONFIDENCE_THRESHOLD = 65"

definition isTargetStage :: "deal_record \<Rightarrow> bool" where
  "isTargetStage d = (case dealstage d of None \<Rightarrow> False | Some s \<Rightarrow> s \<in> set TARGET_STAGE_VALUES)"

section \<open>The confidence scorer\<close>

datatype match_type = Loan_number | Deal_name | Address | Single_contact_deal

text \<open>
  The bonus counter of \<open>scoreMatch\<close>: one for each of the three \<open>some(...)\<close> tests that
  succeeds.
\<close>

definition matchCount :: "deal_record \<Rightarrow> parsed \<Rightarrow> nat" where
  "matchCount d p =
     (if list_ex (\<lambda>ln. str_includes (toLowerCase (or_empty (loan_number d))) (toLowerCase ln)) (loanNumbers p)
      then 1 else 0)
   + (if list_ex (\<lambda>dn. str_includes (toLowerCase (or_empty (dealname d))) (toLowerCase dn)) (dealNames p)
      then 1 else 0)
   + (if list_ex (\<lambda>a. str_includes (toLowerCase (or_empty (full_address d))) (toLowerCase a)) (addresses p)
      then 1 else 0)"

definition scoreMatch :: "match_type \<Rightarrow> string \<Rightarrow> deal_record \<Rightarrow> parsed \<Rightarrow> nat" where
  "scoreMatch matchType matchValue d p =
     (let cleanMatch = toLowerCase (trim (before_first (CHR 0x0A) matchValue));
          score =
            (case matchType of
               Loan_number \<Rightarrow> 100
             | Deal_name \<Rightarrow>
                 (let dealName = toLowerCase (or_empty (dealname d))
                  in if dealName = cleanMatch then 95
                     else if str_includes dealName cleanMatch then 90
                     else 85)
             | Address \<Rightarrow>
                 (let fullAddress = toLowerCase (or_empty (full_address d));
                      dealName = toLowerCase (or_empty (dealname d));
                      streetNum = takeWhile is_digit cleanMatch
                  in 80
                     + (if streetNum \<noteq> [] \<and> (str_includes fullAddress streetNum \<or> str_includes dealName streetNum)
                        then 5 else 0)
                     + (if length cleanMatch > 25 then 5 else 0))
             | Single_contact_deal \<Rightarrow> 0);
          n = matchCount d p
      in min (if n > 1 then score + (n - 1) * 10 else score) 100)"

subsection \<open>The scoring rule in the words of the specification\<close>









section \<open>Search values\<close>

text \<open>\<open>s.replace(/\s+/g, ' ')\<close>: every maximal run of white space becomes one blank.\<close>

function collapse_ws :: "string \<Rightarrow> string" where
  "collapse_ws [] = []"
| "collapse_ws (c # cs) =
     (if is_space c then CHR '' '' # collapse_ws (dropWhile is_space cs) else c # collapse_ws cs)"
  by pat_completeness auto
termination
  by (relation "measure length") (auto simp: length_dropWhile_le less_Suc_eq_le)

text \<open>\<open>s.replace(/[.]+$/, '')\<close>: the full stops at the end of the string are removed.\<close>

definition strip_trailing_dots :: "string \<Rightarrow> string" where
  "strip_trailing_dots s = rev (dropWhile (\<lambda>c. c = CHR ''.'') (rev s))"

definition cleanSearchValue :: "string \<Rightarrow> string" where
  "cleanSearchValue v =
     (if v = [] then []
      else trim (strip_trailing_dots (collapse_ws
             (before_first (CHR 0x0D) (before_first (CHR 0x0A) v)))))"

definition STREET_SUFFIXES :: "string list" where
  "STREET_SUFFIXES =
     [''st'', ''street'', ''ave'', ''avenue'', ''rd'', ''road'', ''dr'', ''drive'', ''ln'', ''lane'',
      ''blvd'', ''boulevard'', ''ct'', ''court'', ''way'', ''pl'', ''place'', ''cir'', ''circle'',
      ''pkwy'', ''ter'', ''terrace'', ''trl'', ''hwy'']"

text \<open>
  The replacement in \<open>extractStreetCore\<close> deletes the leftmost match of
  \<open>\s+(?:St(?:reet)?|...|Hwy)\.?\s*$\<close>, letter case ignored. A match runs to the end of the
  string, so it is found from the end: optional white space, at most one full stop, a last word that
  is one of the suffixes, and all the white space before that word (at least one character).
\<close>

definition strip_street_suffix :: "string \<Rightarrow> string" where
  "strip_street_suffix s =
     (let r1 = dropWhile is_space (rev s);
          r2 = (case r1 of [] \<Rightarrow> [] | c # cs \<Rightarrow> if c = CHR ''.'' then cs else c # cs);
          word = rev (takeWhile (\<lambda>c. \<not> is_space c) r2);
          rest = dropWhile (\<lambda>c. \<not> is_space c) r2
      in if toLowerCase word \<in> set STREET_SUFFIXES \<and> rest \<noteq> []
         then rev (dropWhile is_space rest)
         else s)"

text \<open>The test \<open>/^\d+\s+\w+/\<close>: digits, white space, then a word character.\<close>

definition starts_with_number_word :: "string \<Rightarrow> bool" where
  "starts_with_number_word s =
     (let r = dropWhile is_digit s
      in takeWhile is_digit s \<noteq> [] \<and> takeWhile is_space r \<noteq> []
         \<and> (case dropWhile is_space r of [] \<Rightarrow> False | c # _ \<Rightarrow> is_word_char c))"

definition extractStreetCore :: "string \<Rightarrow> string" where
  "extractStreetCore address =
     (let beforeComma = trim (before_first (CHR '','') address);
          withoutSuffix = trim (strip_street_suffix beforeComma)
      in if starts_with_number_word withoutSuffix then withoutSuffix else beforeComma)"

section \<open>The deal repository\<close>

text \<open>
  Every call of the repository and every pause and console line of the program is an event of one
  trace. The store is outside the program: \<open>world\<close> gives, for the trace so far and a call, what
  \<open>hubspotRequest\<close> yields for that call: \<open>Inl msg\<close> when it throws an error with
  message \<open>msg\<close>, \<open>Inr\<close> the parsed reply otherwise. A reply's \<open>results\<close> may be absent
  (\<open>None\<close>), as in the empty object of a no-content response. The API key is the same in every call
  and is left out of the events. Object identifiers are numbers.
\<close>

datatype field = Dealname | Full_address

datatype log_entry =
    LogTriggered
  | LogProcessingBatch nat int
  | LogProcessingEmail obj_id
  | LogParsed nat nat nat
  | LogMatched obj_id "string option" nat match_type
  | LogNoMatch obj_id
  | LogEmailError obj_id string
  | LogWebhookError string
  | LogFallbackMatch obj_id "string option"
  | LogFallbackSkip obj_id nat
  | LogFallbackError string

datatype io_event =
    GetEmail obj_id
  | SearchLoan string
  | SearchField field string
  | EmailContacts obj_id
  | ContactDeals obj_id
  | BatchRead "obj_id list"
  | Associate obj_id obj_id
  | Sleep nat
  | Log log_entry

type_synonym trace = "io_event list"

definition isGetEmail :: "io_event \<Rightarrow> bool" where
  "isGetEmail ev = (case ev of GetEmail _ \<Rightarrow> True | _ \<Rightarrow> False)"

record email =
  hs_email_subject :: "string option"
  hs_email_text :: "string option"
  hs_email_html :: "string option"

datatype assoc = Assoc (toObjectId: obj_id)

record world =
  email_reply :: "trace \<Rightarrow> obj_id \<Rightarrow> string + email"
  loan_search_reply :: "trace \<Rightarrow> string \<Rightarrow> string + deal_record list option"
  field_search_reply :: "trace \<Rightarrow> field \<Rightarrow> string \<Rightarrow> string + deal_record list option"
  email_contacts_reply :: "trace \<Rightarrow> obj_id \<Rightarrow> string + assoc list option"
  contact_deals_reply :: "trace \<Rightarrow> obj_id \<Rightarrow> string + assoc list option"
  batch_read_reply :: "trace \<Rightarrow> obj_id list \<Rightarrow> string + deal_record list option"
  associate_reply :: "trace \<Rightarrow> obj_id \<Rightarrow> obj_id \<Rightarrow> string + unit"

text \<open>\<open>data.results || []\<close>\<close>

definition results_or_empty :: "'a list option \<Rightarrow> 'a list" where
  "results_or_empty r = (case r of None \<Rightarrow> [] | Some xs \<Rightarrow> xs)"

definition getEmail :: "world \<Rightarrow> trace \<Rightarrow> obj_id \<Rightarrow> (string + email) \<times> trace" where
  "getEmail w tr emailId = (email_reply w tr emailId, tr @ [GetEmail emailId])"

definition searchDealsByLoanNumber ::
  "world \<Rightarrow> trace \<Rightarrow> string \<Rightarrow> (string + deal_record list) \<times> trace" where
  "searchDealsByLoanNumber w tr loanNumber =
     (case loan_search_reply w tr loanNumber of
        Inl e \<Rightarrow> Inl e
      | Inr data \<Rightarrow> Inr (results_or_empty data),
      tr @ [SearchLoan loanNumber])"

definition searchDealsByField ::
  "world \<Rightarrow> trace \<Rightarrow> field \<Rightarrow> string \<Rightarrow> (string + deal_record list) \<times> trace" where
  "searchDealsByField w tr fieldName v =
     (case field_search_reply w tr fieldName v of
        Inl e \<Rightarrow> Inl e
      | Inr data \<Rightarrow> Inr (results_or_empty data),
      tr @ [SearchField fieldName v])"

definition getEmailContactAssociations ::
  "world \<Rightarrow> trace \<Rightarrow> obj_id \<Rightarrow> (string + assoc list) \<times> trace" where
  "getEmailContactAssociations w tr emailId =
     (case email_contacts_reply w tr emailId of
        Inl e \<Rightarrow> if str_includes e ''404'' then Inr [] else Inl e
      | Inr data \<Rightarrow> Inr (results_or_empty data),
      tr @ [EmailContacts emailId])"

definition getContactDealAssociations ::
  "world \<Rightarrow> trace \<Rightarrow> obj_id \<Rightarrow> (string + assoc list) \<times> trace" where
  "getContactDealAssociations w tr contactId =
     (case contact_deals_reply w tr contactId of
        Inl e \<Rightarrow> if str_includes e ''404'' then Inr [] else Inl e
      | Inr data \<Rightarrow> Inr (results_or_empty data),
      tr @ [ContactDeals contactId])"

definition batchGetDeals ::
  "world \<Rightarrow> trace \<Rightarrow> obj_id list \<Rightarrow> (string + deal_record list) \<times> trace" where
  "batchGetDeals w tr dealIds =
     (case batch_read_reply w tr dealIds of
        Inl e \<Rightarrow> Inl e
      | Inr data \<Rightarrow> Inr (results_or_empty data),
      tr @ [BatchRead dealIds])"

definition associateEmailToDeal ::
  "world \<Rightarrow> trace \<Rightarrow> obj_id \<Rightarrow> obj_id \<Rightarrow> (string + unit) \<times> trace" where
  "associateEmailToDeal w tr emailId dealId =
     (associate_reply w tr emailId dealId, tr @ [Associate emailId dealId])"

section \<open>The matching orchestrator\<close>

record match_result =
  deal :: deal_record
  confidence :: nat
  matchType :: match_type

record candidate =
  cand_deal :: deal_record
  cand_matchType :: match_type
  cand_matchValue :: string

text \<open>
  Channel 1, the loop over the extracted loan numbers: the first search with a deal in an allowed
  stage returns that deal; a failing search ends the loop with its error.
\<close>

fun loanChannel ::
  "world \<Rightarrow> trace \<Rightarrow> string list \<Rightarrow> (string + match_result option) \<times> trace" where
  "loanChannel w tr [] = (Inr None, tr)"
| "loanChannel w tr (ln # lns) =
     (case searchDealsByLoanNumber w tr ln of
        (Inl e, tr1) \<Rightarrow> (Inl e, tr1)
      | (Inr deals, tr1) \<Rightarrow>
          (case filter isTargetStage deals of
             [] \<Rightarrow> loanChannel w tr1 lns
           | d # _ \<Rightarrow> (Inr (Some \<lparr>deal = d, confidence = 100, matchType = Loan_number\<rparr>), tr1)))"

text \<open>Channel 2: deal names, with the address field as second try. Candidates are pooled.\<close>

fun dealNameChannel ::
  "world \<Rightarrow> trace \<Rightarrow> string list \<Rightarrow> candidate list \<Rightarrow> (string + candidate list) \<times> trace" where
  "dealNameChannel w tr [] candidates = (Inr candidates, tr)"
| "dealNameChannel w tr (name # names) candidates =
     (let cleanName = cleanSearchValue name
      in if cleanName = [] \<or> length cleanName < 3 then dealNameChannel w tr names candidates
         else
           (case searchDealsByField w (tr @ [Sleep 150]) Dealname cleanName of
              (Inl e, tr1) \<Rightarrow> (Inl e, tr1)
            | (Inr deals, tr1) \<Rightarrow>
                (case (if deals = [] then searchDealsByField w tr1 Full_address cleanName
                       else (Inr deals, tr1)) of
                   (Inl e, tr2) \<Rightarrow> (Inl e, tr2)
                 | (Inr deals2, tr2) \<Rightarrow>
                     dealNameChannel w tr2 names
                       (candidates @
                        map (\<lambda>d. \<lparr>cand_deal = d, cand_matchType = Deal_name,
                                  cand_matchValue = cleanName\<rparr>) deals2))))"

text \<open>Channel 3: addresses reduced to their street core, with the name field as second try.\<close>

fun addressChannel ::
  "world \<Rightarrow> trace \<Rightarrow> string list \<Rightarrow> candidate list \<Rightarrow> (string + candidate list) \<times> trace" where
  "addressChannel w tr [] candidates = (Inr candidates, tr)"
| "addressChannel w tr (addr # addrs) candidates =
     (let cleanAddr = cleanSearchValue addr
      in if cleanAddr = [] \<or> length cleanAddr < 5 then addressChannel w tr addrs candidates
         else
           (let streetPart = extractStreetCore cleanAddr;
                v = (if streetPart \<noteq> [] then streetPart else cleanAddr)
            in case searchDealsByField w (tr @ [Sleep 150]) Full_address v of
                 (Inl e, tr1) \<Rightarrow> (Inl e, tr1)
               | (Inr deals, tr1) \<Rightarrow>
                   (case (if deals = [] then searchDealsByField w tr1 Dealname v
                          else (Inr deals, tr1)) of
                      (Inl e, tr2) \<Rightarrow> (Inl e, tr2)
                    | (Inr deals2, tr2) \<Rightarrow>
                        addressChannel w tr2 addrs
                          (candidates @
                           map (\<lambda>d. \<lparr>cand_deal = d, cand_matchType = Address,
                                     cand_matchValue = addr\<rparr>) deals2))))"

text \<open>
  Score and pick best: candidates in an allowed stage are scored and sorted by descending score
  (\<open>sort\<close> is stable); the first one wins if it reaches the threshold.
\<close>

definition scoreCandidates :: "candidate list \<Rightarrow> parsed \<Rightarrow> (candidate \<times> nat) list" where
  "scoreCandidates candidates p =
     sort_key (\<lambda>(c, s). - int s)
       (map (\<lambda>c. (c, scoreMatch (cand_matchType c) (cand_matchValue c) (cand_deal c) p))
          (filter (\<lambda>c. isTargetStage (cand_deal c)) candidates))"

definition pickBest :: "candidate list \<Rightarrow> parsed \<Rightarrow> match_result option" where
  "pickBest candidates p =
     (case scoreCandidates candidates p of
        [] \<Rightarrow> None
      | (c, s) # _ \<Rightarrow>
          if s \<ge> CONFIDENCE_THRESHOLD
          then Some \<lparr>deal = cand_deal c, confidence = s, matchType = cand_matchType c\<rparr>
          else None)"

definition findMatch ::
  "world \<Rightarrow> trace \<Rightarrow> parsed \<Rightarrow> (string + match_result option) \<times> trace" where
  "findMatch w tr p =
     (case loanChannel w tr (loanNumbers p) of
        (Inl e, tr1) \<Rightarrow> (Inl e, tr1)
      | (Inr (Some m), tr1) \<Rightarrow> (Inr (Some m), tr1)
      | (Inr None, tr1) \<Rightarrow>
          (case dealNameChannel w tr1 (dealNames p) [] of
             (Inl e, tr2) \<Rightarrow> (Inl e, tr2)
           | (Inr c1, tr2) \<Rightarrow>
               (case addressChannel w tr2 (addresses p) c1 of
                  (Inl e, tr3) \<Rightarrow> (Inl e, tr3)
                | (Inr c2, tr3) \<Rightarrow> (Inr (pickBest c2 p), tr3))))"

section \<open>The fallback resolver\<close>

text \<open>The loop over the email's contacts; an error of a lookup leaves the loop.\<close>

fun fallbackContacts ::
  "world \<Rightarrow> trace \<Rightarrow> assoc list \<Rightarrow> (string + match_result option) \<times> trace" where
  "fallbackContacts w tr [] = (Inr None, tr)"
| "fallbackContacts w tr (a # rest) =
     (let contactId = toObjectId a
      in case getContactDealAssociations w tr contactId of
           (Inl e, tr1) \<Rightarrow> (Inl e, tr1)
         | (Inr dealAssocs, tr1) \<Rightarrow>
             (case dealAssocs of
                [da] \<Rightarrow>
                  (case batchGetDeals w tr1 [toObjectId da] of
                     (Inl e, tr2) \<Rightarrow> (Inl e, tr2)
                   | (Inr deals, tr2) \<Rightarrow>
                       (case deals of
                          [d] \<Rightarrow>
                            (Inr (Some \<lparr>deal = d, confidence = 100,
                                       matchType = Single_contact_deal\<rparr>),
                             tr2 @ [Log (LogFallbackMatch contactId (dealname d))])
                        | _ \<Rightarrow> fallbackContacts w tr2 rest))
              | [] \<Rightarrow> fallbackContacts w tr1 rest
              | _ \<Rightarrow>
                  fallbackContacts w (tr1 @ [Log (LogFallbackSkip contactId (length dealAssocs))])
                    rest))"

text \<open>The resolver: any error inside is caught, logged and answered with no match.\<close>

definition fallbackSingleContactDeal ::
  "world \<Rightarrow> trace \<Rightarrow> obj_id \<Rightarrow> match_result option \<times> trace" where
  "fallbackSingleContactDeal w tr emailId =
     (case getEmailContactAssociations w tr emailId of
        (Inl e, tr1) \<Rightarrow> (None, tr1 @ [Log (LogFallbackError e)])
      | (Inr contactAssocs, tr1) \<Rightarrow>
          if contactAssocs = [] then (None, tr1)
          else
            (case fallbackContacts w tr1 contactAssocs of
               (Inl e, tr2) \<Rightarrow> (None, tr2 @ [Log (LogFallbackError e)])
             | (Inr m, tr2) \<Rightarrow> (m, tr2)))"

section \<open>The handler\<close>

record webhook_event =
  objectTypeId :: string
  subscriptionType :: string
  propertyName :: "string option"
  objectId :: obj_id

record result =
  res_emailId :: obj_id
  res_dealId :: obj_id
  res_dealName :: "string option"
  res_confidence :: nat
  res_matchType :: match_type
  res_success :: bool

text \<open>
  The filter that keeps the events to process; \<open>seen\<close> holds the identifiers kept so far
  (the keys \<open>String(evt.objectId)\<close>, one for each number).
\<close>

fun uniqueEvents :: "obj_id set \<Rightarrow> webhook_event list \<Rightarrow> webhook_event list" where
  "uniqueEvents seen [] = []"
| "uniqueEvents seen (evt # evts) =
     (if objectTypeId evt \<noteq> ''0-49'' then uniqueEvents seen evts
      else if subscriptionType evt = ''object.propertyChange''
              \<and> propertyName evt \<noteq> Some ''hs_email_direction''
      then uniqueEvents seen evts
      else if objectId evt \<in> seen then uniqueEvents seen evts
      else evt # uniqueEvents (insert (objectId evt) seen) evts)"

text \<open>
  The extractor \<open>parseEmail\<close> is a function of subject and body only; it is a parameter here,
  and what is proved holds for every extractor. \<open>parseFetched\<close> applies it to a fetched email:
  the subject or the empty string, and the text, else the html, else the empty string.
\<close>

definition parseFetched :: "(string \<Rightarrow> string \<Rightarrow> parsed) \<Rightarrow> email \<Rightarrow> parsed" where
  "parseFetched parseEmail email =
     (let subject = or_empty (hs_email_subject email);
          body = (if or_empty (hs_email_text email) \<noteq> [] then or_empty (hs_email_text email)
                  else or_empty (hs_email_html email))
      in parseEmail subject body)"

definition logParsed :: "parsed \<Rightarrow> io_event" where
  "logParsed p = Log (LogParsed (length (loanNumbers p)) (length (addresses p)) (length (dealNames p)))"

text \<open>The body of the per-email \<open>try\<close>.\<close>

definition processEmail_try ::
  "world \<Rightarrow> (string \<Rightarrow> string \<Rightarrow> parsed) \<Rightarrow> trace \<Rightarrow> obj_id \<Rightarrow> (string + result option) \<times> trace" where
  "processEmail_try w parseEmail tr emailId =
     (case getEmail w (tr @ [Log (LogProcessingEmail emailId)]) emailId of
        (Inl e, tr1) \<Rightarrow> (Inl e, tr1)
      | (Inr email, tr1) \<Rightarrow>
          (let p = parseFetched parseEmail email
           in case findMatch w (tr1 @ [logParsed p]) p of
                (Inl e, tr3) \<Rightarrow> (Inl e, tr3)
              | (Inr found, tr3) \<Rightarrow>
                  (case (case found of
                           None \<Rightarrow> fallbackSingleContactDeal w tr3 emailId
                         | Some m \<Rightarrow> (Some m, tr3)) of
                     (None, tr4) \<Rightarrow> (Inr None, tr4 @ [Log (LogNoMatch emailId), Sleep 200])
                   | (Some m, tr4) \<Rightarrow>
                       (case associateEmailToDeal w
                               (tr4 @ [Log (LogMatched emailId (dealname (deal m)) (confidence m)
                                              (matchType m))])
                               emailId (deal_id (deal m)) of
                          (Inl e, tr5) \<Rightarrow> (Inl e, tr5)
                        | (Inr _, tr5) \<Rightarrow>
                            (Inr (Some \<lparr>res_emailId = emailId, res_dealId = deal_id (deal m),
                                        res_dealName = dealname (deal m),
                                        res_confidence = confidence m,
                                        res_matchType = matchType m, res_success = True\<rparr>),
                             tr5 @ [Sleep 200])))))"

text \<open>The per-email \<open>try ... catch\<close>: an error is logged and the email gives no result.\<close>

definition processEmail ::
  "world \<Rightarrow> (string \<Rightarrow> string \<Rightarrow> parsed) \<Rightarrow> trace \<Rightarrow> obj_id \<Rightarrow> result option \<times> trace" where
  "processEmail w parseEmail tr emailId =
     (case processEmail_try w parseEmail tr emailId of
        (Inl e, tr1) \<Rightarrow> (None, tr1 @ [Log (LogEmailError emailId e)])
      | (Inr r, tr1) \<Rightarrow> (r, tr1))"

fun processEvents ::
  "world \<Rightarrow> (string \<Rightarrow> string \<Rightarrow> parsed) \<Rightarrow> trace \<Rightarrow> webhook_event list \<Rightarrow> result list
     \<Rightarrow> result list \<times> trace" where
  "processEvents w parseEmail tr [] results = (results, tr)"
| "processEvents w parseEmail tr (evt # evts) results =
     (case processEmail w parseEmail tr (objectId evt) of
        (None, tr1) \<Rightarrow> processEvents w parseEmail tr1 evts results
      | (Some r, tr1) \<Rightarrow> processEvents w parseEmail tr1 evts (results @ [r]))"

text \<open>
  The invocation: the HTTP method, the body (\<open>Inl msg\<close> when \<open>JSON.parse\<close> or the filter over
  it throws an error with message \<open>msg\<close>, \<open>Inr\<close> the list of events otherwise) and the
  configured API key (absent or empty when not configured).
\<close>

record http_event =
  httpMethod :: string
  body :: "string + webhook_event list"

datatype response_body =
    PlainText string
  | ErrorJson string
  | SuccessJson nat "result list"

record http_response =
  statusCode :: nat
  response_body :: response_body

definition handler ::
  "world \<Rightarrow> (string \<Rightarrow> string \<Rightarrow> parsed) \<Rightarrow> string option \<Rightarrow> trace \<Rightarrow> http_event
     \<Rightarrow> http_response \<times> trace" where
  "handler w parseEmail apiKey tr event =
     (let tr0 = tr @ [Log LogTriggered]
      in if httpMethod event = ''GET''
         then (\<lparr>statusCode = 200, response_body = PlainText ''Email sync webhook active''\<rparr>, tr0)
         else if httpMethod event = ''POST''
         then
           (if or_empty apiKey = []
            then (\<lparr>statusCode = 500, response_body = ErrorJson ''HUBSPOT_API_KEY not configured''\<rparr>,
                  tr0)
            else
              (case body event of
                 Inl e \<Rightarrow>
                   (\<lparr>statusCode = 500, response_body = ErrorJson e\<rparr>, tr0 @ [Log (LogWebhookError e)])
               | Inr events \<Rightarrow>
                   (let unique = uniqueEvents {} events;
                        tr1 = tr0 @ [Log (LogProcessingBatch (length unique)
                                            (int (length events) - int (length unique)))]
                    in case processEvents w parseEmail tr1 unique [] of
                         (results, tr2) \<Rightarrow>
                           (\<lparr>statusCode = 200,
                             response_body = SuccessJson (length results) results\<rparr>, tr2))))
         else (\<lparr>statusCode = 405, response_body = PlainText ''Method not allowed''\<rparr>, tr0))"

section \<open>The repository client: one request with its retries\<close>



















section \<open>A sample store\<close>

text \<open>
  A small store used to run the program on concrete inputs: three deals, one of them in a stage
  outside the allowed set, and a few emails and contacts. Its replies do not depend on the trace.
\<close>

definition good_deal :: deal_record where
  "good_deal = \<lparr>deal_id = 70, dealname = Some ''21 Valley Rd'', loan_number = Some ''222'',
                 full_address = Some ''21 Valley Rd, Detroit, MI'', dealstage = Some ''closedwon''\<rparr>"

definition lost_deal :: deal_record where
  "lost_deal = \<lparr>deal_id = 73, dealname = Some ''168 Las Palmas'', loan_number = Some ''222'',
                 full_address = Some ''168 Las Palmas Dr'', dealstage = Some ''closedlost''\<rparr>"

definition sample_world :: world where
  "sample_world =
     \<lparr>email_reply = (\<lambda>tr e.
          if e = 1 then Inr \<lparr>hs_email_subject = Some ''Loan number 222'', hs_email_text = None,
                             hs_email_html = None\<rparr>
          else if e = 2 then Inl ''HubSpot API Error (500): internal error''
          else Inr \<lparr>hs_email_subject = Some ''hello'', hs_email_text = Some ''see you'',
                    hs_email_html = None\<rparr>),
       loan_search_reply = (\<lambda>tr ln.
          if ln = ''222'' then Inr (Some [lost_deal, good_deal]) else Inr (Some [])),
       field_search_reply = (\<lambda>tr f v. Inr (Some [lost_deal])),
       email_contacts_reply = (\<lambda>tr e.
          if e = 3 then Inr (Some [Assoc 10, Assoc 11, Assoc 12])
          else if e = 4 then Inr (Some [Assoc 13, Assoc 12])
          else if e = 5 then Inr (Some [Assoc 14, Assoc 12])
          else Inr None),
       contact_deals_reply = (\<lambda>tr c.
          if c = 10 then Inr (Some [Assoc 75])
          else if c = 11 then Inr (Some [Assoc 70, Assoc 73])
          else if c = 12 then Inr (Some [Assoc 73])
          else if c = 13 then Inl ''HubSpot API Error (500): internal error''
          else if c = 14 then Inl ''HubSpot API Error (404): not found''
          else Inr (Some [])),
       batch_read_reply = (\<lambda>tr ids. if ids = [73] then Inr (Some [lost_deal]) else Inr (Some [])),
       associate_reply = (\<lambda>tr e d. Inr ())\<rparr>"

text \<open>A stand-in for the extractor on the sample emails.\<close>

definition sample_parse :: "string \<Rightarrow> string \<Rightarrow> parsed" where
  "sample_parse subject text =
     (if subject = ''Loan number 222''
      then \<lparr>loanNumbers = [''111'', ''222''], addresses = [], dealNames = []\<rparr>
      else \<lparr>loanNumbers = [], addresses = [], dealNames = []\<rparr>)"

definition sample_event :: "obj_id \<Rightarrow> webhook_event" where
  "sample_event n = \<lparr>objectTypeId = ''0-49'', subscriptionType = ''object.creation'',
                      propertyName = None, objectId = n\<rparr>"

definition sample_parsed :: parsed where
  "sample_parsed = \<lparr>loanNumbers = [''111'', ''222''], addresses = [''168 Las Palmas Dr., Miami''],
                     dealNames = [''168 Las Palmas'']\<rparr>"


text \<open>An event that reports the deletion of an email.\<close>

definition deletion_event :: "obj_id \<Rightarrow> webhook_event" where
  "deletion_event n = \<lparr>objectTypeId = ''0-49'', subscriptionType = ''object.deletion'',
                        propertyName = None, objectId = n\<rparr>"







section \<open>Properties of the confidence scorer\<close>















section \<open>Properties of the matching orchestrator\<close>

lemma loanChannel_append:
  "loanChannel w tr pre = (Inr None, tr1) \<Longrightarrow> loanChannel w tr (pre @ rest) = loanChannel w tr1 rest"
  by (induction pre arbitrary: tr) (auto split: prod.splits sum.splits list.splits)

lemma loanChannel_None_trace:
  "loanChannel w tr pre = (Inr None, tr1) \<Longrightarrow> tr1 = tr @ map SearchLoan pre"
  by (induction pre arbitrary: tr)
    (fastforce simp: searchDealsByLoanNumber_def split: prod.splits sum.splits list.splits)+

lemma loanChannel_Some:
  "loanChannel w tr lns = (Inr (Some m), tr1) \<Longrightarrow>
     isTargetStage (deal m) \<and> confidence m = 100 \<and> matchType m = Loan_number"
proof (induction lns arbitrary: tr)
  case Nil
  then show ?case by simp
next
  case (Cons ln lns)
  obtain r tr2 where s: "searchDealsByLoanNumber w tr ln = (r, tr2)" by (cases "searchDealsByLoanNumber w tr ln")
  show ?case
  proof (cases r)
    case (Inl e)
    with Cons.prems s show ?thesis by simp
  next
    case (Inr deals)
    show ?thesis
    proof (cases "filter isTargetStage deals")
      case Nil
      with Cons.prems s Inr have "loanChannel w tr2 lns = (Inr (Some m), tr1)" by simp
      then show ?thesis by (rule Cons.IH)
    next
      case (Cons d ds)
      then have "d \<in> set (filter isTargetStage deals)" by simp
      then have "isTargetStage d" by simp
      moreover from Cons.prems s Inr Cons
      have "m = \<lparr>deal = d, confidence = 100, matchType = Loan_number\<rparr>" by simp
      ultimately show ?thesis by simp
    qed
  qed
qed

lemma scoreCandidates_set:
  "(c, s) \<in> set (scoreCandidates cs p) \<Longrightarrow>
     c \<in> set cs \<and> isTargetStage (cand_deal c)
     \<and> s = scoreMatch (cand_matchType c) (cand_matchValue c) (cand_deal c) p"
  by (auto simp: scoreCandidates_def)

lemma pickBest_Some:
  assumes "pickBest cs p = Some m"
  shows "isTargetStage (deal m) \<and> CONFIDENCE_THRESHOLD \<le> confidence m
         \<and> (\<exists>c \<in> set cs. matchType m = cand_matchType c \<and> deal m = cand_deal c
              \<and> confidence m = scoreMatch (cand_matchType c) (cand_matchValue c) (cand_deal c) p)"
proof (cases "scoreCandidates cs p")
  case Nil
  with assms show ?thesis by (simp add: pickBest_def)
next
  case (Cons x xs)
  obtain c s where x: "x = (c, s)" by (cases x)
  with Cons have "(c, s) \<in> set (scoreCandidates cs p)" by simp
  then have 1: "c \<in> set cs" "isTargetStage (cand_deal c)"
    "s = scoreMatch (cand_matchType c) (cand_matchValue c) (cand_deal c) p"
    using scoreCandidates_set by blast+
  from assms Cons x have 2: "CONFIDENCE_THRESHOLD \<le> s"
    and 3: "m = \<lparr>deal = cand_deal c, confidence = s, matchType = cand_matchType c\<rparr>"
    by (auto simp: pickBest_def split: if_splits)
  from 1 2 3 show ?thesis by auto
qed

lemma dealNameChannel_types:
  "dealNameChannel w tr names cs = (Inr cs', tr') \<Longrightarrow> c \<in> set cs' \<Longrightarrow>
     c \<in> set cs \<or> cand_matchType c = Deal_name"
proof (induction names arbitrary: tr cs)
  case Nil
  then show ?case by simp
next
  case (Cons name names)
  show ?case
  proof (cases "cleanSearchValue name = [] \<or> length (cleanSearchValue name) < 3")
    case True
    with Cons.prems have "dealNameChannel w tr names cs = (Inr cs', tr')" by simp
    from Cons.IH [OF this Cons.prems(2)] show ?thesis .
  next
    case False
    with Cons.prems(1) obtain deals2 tr2 where
      "dealNameChannel w tr2 names
         (cs @ map (\<lambda>d. \<lparr>cand_deal = d, cand_matchType = Deal_name,
                             cand_matchValue = cleanSearchValue name\<rparr>) deals2) = (Inr cs', tr')"
      by (auto simp: Let_def split: prod.splits sum.splits if_splits)
    from Cons.IH [OF this Cons.prems(2)] show ?thesis by auto
  qed
qed

lemma addressChannel_types:
  "addressChannel w tr addrs cs = (Inr cs', tr') \<Longrightarrow> c \<in> set cs' \<Longrightarrow>
     c \<in> set cs \<or> cand_matchType c = Address"
proof (induction addrs arbitrary: tr cs)
  case Nil
  then show ?case by simp
next
  case (Cons addr addrs)
  show ?case
  proof (cases "cleanSearchValue addr = [] \<or> length (cleanSearchValue addr) < 5")
    case True
    with Cons.prems have "addressChannel w tr addrs cs = (Inr cs', tr')" by simp
    from Cons.IH [OF this Cons.prems(2)] show ?thesis .
  next
    case False
    with Cons.prems(1) obtain deals2 tr2 where
      "addressChannel w tr2 addrs
         (cs @ map (\<lambda>d. \<lparr>cand_deal = d, cand_matchType = Address,
                             cand_matchValue = addr\<rparr>) deals2) = (Inr cs', tr')"
      by (auto simp: Let_def split: prod.splits sum.splits if_splits)
    from Cons.IH [OF this Cons.prems(2)] show ?thesis by auto
  qed
qed

lemma scoreMatch_le_100: "scoreMatch mt v d p \<le> 100"
  unfolding scoreMatch_def Let_def by (rule min.cobounded2)

lemma findMatch_Some:
  assumes "findMatch w tr p = (Inr (Some m), tr')"
  shows "isTargetStage (deal m)
         \<and> (matchType m = Loan_number \<and> confidence m = 100
            \<or> (matchType m = Deal_name \<or> matchType m = Address)
              \<and> CONFIDENCE_THRESHOLD \<le> confidence m \<and> confidence m \<le> 100)"
proof -
  obtain r1 tr1 where l: "loanChannel w tr (loanNumbers p) = (r1, tr1)"
    by (cases "loanChannel w tr (loanNumbers p)")
  show ?thesis
  proof (cases r1)
    case (Inl e)
    with assms l show ?thesis by (simp add: findMatch_def)
  next
    case (Inr found)
    show ?thesis
    proof (cases found)
      case (Some m1)
      with assms l Inr have "m1 = m" by (simp add: findMatch_def)
      with l Inr Some have "loanChannel w tr (loanNumbers p) = (Inr (Some m), tr1)" by simp
      from loanChannel_Some [OF this] show ?thesis by simp
    next
      case None
      with assms l Inr obtain c1 tr2 c2 where
        d: "dealNameChannel w tr1 (dealNames p) [] = (Inr c1, tr2)"
        and a: "addressChannel w tr2 (addresses p) c1 = (Inr c2, tr')"
        and b: "pickBest c2 p = Some m"
        by (auto simp: findMatch_def split: prod.splits sum.splits)
      from pickBest_Some [OF b] obtain c where
        c: "isTargetStage (deal m)" "CONFIDENCE_THRESHOLD \<le> confidence m" "c \<in> set c2"
        "matchType m = cand_matchType c"
        "confidence m = scoreMatch (cand_matchType c) (cand_matchValue c) (cand_deal c) p"
        by blast
      from addressChannel_types [OF a c(3)] dealNameChannel_types [OF d, of c]
      have "cand_matchType c = Deal_name \<or> cand_matchType c = Address" by auto
      with c scoreMatch_le_100 show ?thesis by auto
    qed
  qed
qed

lemma findMatch_loan_hit:
  assumes "loanNumbers p = pre @ ln # post"
    and "loanChannel w tr pre = (Inr None, tr1)"
    and "searchDealsByLoanNumber w tr1 ln = (Inr deals, tr2)"
    and "filter isTargetStage deals = d # ds"
  shows "findMatch w tr p =
           (Inr (Some \<lparr>deal = d, confidence = 100, matchType = Loan_number\<rparr>),
            tr @ map SearchLoan (pre @ [ln]))"
proof -
  have "loanChannel w tr (loanNumbers p) = loanChannel w tr1 (ln # post)"
    using assms(1) loanChannel_append [OF assms(2)] by simp
  also have "\<dots> = (Inr (Some \<lparr>deal = d, confidence = 100, matchType = Loan_number\<rparr>), tr2)"
    using assms(3,4) by simp
  finally have 1: "loanChannel w tr (loanNumbers p)
                   = (Inr (Some \<lparr>deal = d, confidence = 100, matchType = Loan_number\<rparr>), tr2)" .
  have "tr2 = tr1 @ [SearchLoan ln]"
    using assms(3) by (simp add: searchDealsByLoanNumber_def)
  with loanChannel_None_trace [OF assms(2)] have 2: "tr2 = tr @ map SearchLoan (pre @ [ln])"
    by simp
  from 1 2 show ?thesis by (simp add: findMatch_def)
qed

section \<open>Properties of the fallback resolver\<close>

lemma fallbackContacts_skip:
  assumes "getContactDealAssociations w tr (toObjectId a) = (Inr das, tr1)" and "length das \<noteq> 1"
  shows "fallbackContacts w tr (a # rest) =
           fallbackContacts w
             (if das = [] then tr1 else tr1 @ [Log (LogFallbackSkip (toObjectId a) (length das))])
             rest"
proof (cases das)
  case Nil
  with assms show ?thesis by simp
next
  case (Cons x xs)
  with assms(2) obtain y ys where "xs = y # ys" by (cases xs) auto
  with Cons assms(1) show ?thesis by simp
qed

lemma fallbackContacts_unreadable:
  assumes "getContactDealAssociations w tr (toObjectId a) = (Inr [da], tr1)"
    and "batchGetDeals w tr1 [toObjectId da] = (Inr deals, tr2)" and "length deals \<noteq> 1"
  shows "fallbackContacts w tr (a # rest) = fallbackContacts w tr2 rest"
proof (cases deals)
  case Nil
  with assms show ?thesis by simp
next
  case (Cons x xs)
  with assms(3) obtain y ys where "xs = y # ys" by (cases xs) auto
  with Cons assms(1,2) show ?thesis by simp
qed

lemma fallbackContacts_hit:
  assumes "getContactDealAssociations w tr (toObjectId a) = (Inr [da], tr1)"
    and "batchGetDeals w tr1 [toObjectId da] = (Inr [d], tr2)"
  shows "fallbackContacts w tr (a # rest) =
           (Inr (Some \<lparr>deal = d, confidence = 100, matchType = Single_contact_deal\<rparr>),
            tr2 @ [Log (LogFallbackMatch (toObjectId a) (dealname d))])"
  using assms by simp

lemma fallbackContacts_error:
  assumes "getContactDealAssociations w tr (toObjectId a) = (Inl msg, tr1)"
  shows "fallbackContacts w tr (a # rest) = (Inl msg, tr1)"
  using assms by simp

lemma fallbackContacts_cases:
  obtains (lookup_failed) msg tr1 where
      "getContactDealAssociations w tr (toObjectId a) = (Inl msg, tr1)"
      "fallbackContacts w tr (a # rest) = (Inl msg, tr1)"
  | (skipped) das tr1 where
      "getContactDealAssociations w tr (toObjectId a) = (Inr das, tr1)" "length das \<noteq> 1"
      "fallbackContacts w tr (a # rest) =
         fallbackContacts w
           (if das = [] then tr1 else tr1 @ [Log (LogFallbackSkip (toObjectId a) (length das))])
           rest"
  | (read_failed) da tr1 msg tr2 where
      "getContactDealAssociations w tr (toObjectId a) = (Inr [da], tr1)"
      "batchGetDeals w tr1 [toObjectId da] = (Inl msg, tr2)"
      "fallbackContacts w tr (a # rest) = (Inl msg, tr2)"
  | (unreadable) da tr1 deals tr2 where
      "getContactDealAssociations w tr (toObjectId a) = (Inr [da], tr1)"
      "batchGetDeals w tr1 [toObjectId da] = (Inr deals, tr2)" "length deals \<noteq> 1"
      "fallbackContacts w tr (a # rest) = fallbackContacts w tr2 rest"
  | (hit) da tr1 d tr2 where
      "getContactDealAssociations w tr (toObjectId a) = (Inr [da], tr1)"
      "batchGetDeals w tr1 [toObjectId da] = (Inr [d], tr2)"
      "fallbackContacts w tr (a # rest) =
         (Inr (Some \<lparr>deal = d, confidence = 100, matchType = Single_contact_deal\<rparr>),
          tr2 @ [Log (LogFallbackMatch (toObjectId a) (dealname d))])"
proof -
  obtain r tr1 where g: "getContactDealAssociations w tr (toObjectId a) = (r, tr1)"
    by (cases "getContactDealAssociations w tr (toObjectId a)")
  show ?thesis
  proof (cases r)
    case (Inl msg)
    with g show ?thesis using lookup_failed fallbackContacts_error by blast
  next
    case (Inr das)
    show ?thesis
    proof (cases "length das = 1")
      case False
      with g Inr show ?thesis using skipped fallbackContacts_skip by blast
    next
      case True
      then obtain da where das: "das = [da]" by (cases das) auto
      obtain r2 tr2 where b: "batchGetDeals w tr1 [toObjectId da] = (r2, tr2)"
        by (cases "batchGetDeals w tr1 [toObjectId da]")
      show ?thesis
      proof (cases r2)
        case (Inl msg)
        with g Inr das b have "fallbackContacts w tr (a # rest) = (Inl msg, tr2)" by simp
        with g Inr das b Inl show ?thesis using read_failed by blast
      next
        case r2: (Inr deals)
        show ?thesis
        proof (cases "length deals = 1")
          case False
          with g Inr das b r2 show ?thesis
            using unreadable fallbackContacts_unreadable by blast
        next
          case True
          then obtain d where "deals = [d]" by (cases deals) auto
          with g Inr das b r2 show ?thesis using hit fallbackContacts_hit by blast
        qed
      qed
    qed
  qed
qed

lemma fallbackContacts_append:
  "fallbackContacts w tr pre = (Inr None, tr1) \<Longrightarrow>
     fallbackContacts w tr (pre @ rest) = fallbackContacts w tr1 rest"
proof (induction pre arbitrary: tr)
  case Nil
  then show ?case by simp
next
  case (Cons a pre)
  show ?case
  proof (cases rule: fallbackContacts_cases [of w tr a pre])
    case (lookup_failed msg tr1)
    with Cons.prems show ?thesis by simp
  next
    case (skipped das tr2)
    have "fallbackContacts w tr ((a # pre) @ rest) =
            fallbackContacts w
              (if das = [] then tr2 else tr2 @ [Log (LogFallbackSkip (toObjectId a) (length das))])
              (pre @ rest)"
      using fallbackContacts_skip [OF skipped(1,2)] by simp
    also have "\<dots> = fallbackContacts w tr1 rest"
      using Cons.IH Cons.prems skipped(3) by simp
    finally show ?thesis .
  next
    case (read_failed da tr1 msg tr2)
    with Cons.prems show ?thesis by simp
  next
    case (unreadable da tr2 deals tr3)
    have "fallbackContacts w tr ((a # pre) @ rest) = fallbackContacts w tr3 (pre @ rest)"
      using fallbackContacts_unreadable [OF unreadable(1,2,3)] by simp
    also have "\<dots> = fallbackContacts w tr1 rest"
      using Cons.IH Cons.prems unreadable(4) by simp
    finally show ?thesis .
  next
    case (hit da tr1 d tr2)
    with Cons.prems show ?thesis by simp
  qed
qed

lemma fallbackContacts_Some:
  "fallbackContacts w tr cs = (Inr (Some m), tr') \<Longrightarrow>
     confidence m = 100 \<and> matchType m = Single_contact_deal
     \<and> (\<exists>a \<in> set cs. \<exists>tr1 tr2 tr3 da.
           getContactDealAssociations w tr1 (toObjectId a) = (Inr [da], tr2)
           \<and> batchGetDeals w tr2 [toObjectId da] = (Inr [deal m], tr3))"
proof (induction cs arbitrary: tr)
  case Nil
  then show ?case by simp
next
  case (Cons a cs)
  show ?case
  proof (cases rule: fallbackContacts_cases [of w tr a cs])
    case (lookup_failed msg tr1)
    with Cons.prems show ?thesis by simp
  next
    case (skipped das tr2)
    with Cons.prems Cons.IH show ?thesis by (metis list.set_intros(2))
  next
    case (read_failed da tr1 msg tr2)
    with Cons.prems show ?thesis by simp
  next
    case (unreadable da tr2 deals tr3)
    with Cons.prems Cons.IH show ?thesis by (metis list.set_intros(2))
  next
    case (hit da tr1 d tr2)
    with Cons.prems have "m = \<lparr>deal = d, confidence = 100, matchType = Single_contact_deal\<rparr>"
      by simp
    with hit(1,2) show ?thesis by auto
  qed
qed

lemma fallback_first_qualifying:
  assumes "getEmailContactAssociations w tr e = (Inr (pre @ a # post), tr1)"
    and "fallbackContacts w tr1 pre = (Inr None, tr2)"
    and "getContactDealAssociations w tr2 (toObjectId a) = (Inr [da], tr3)"
    and "batchGetDeals w tr3 [toObjectId da] = (Inr [d], tr4)"
  shows "fallbackSingleContactDeal w tr e =
           (Some \<lparr>deal = d, confidence = 100, matchType = Single_contact_deal\<rparr>,
            tr4 @ [Log (LogFallbackMatch (toObjectId a) (dealname d))])"
proof -
  have "fallbackContacts w tr1 (pre @ a # post) = fallbackContacts w tr2 (a # post)"
    using assms(2) by (rule fallbackContacts_append)
  also have "\<dots> = (Inr (Some \<lparr>deal = d, confidence = 100, matchType = Single_contact_deal\<rparr>),
                   tr4 @ [Log (LogFallbackMatch (toObjectId a) (dealname d))])"
    using assms(3,4) by (rule fallbackContacts_hit)
  finally show ?thesis using assms(1) by (simp add: fallbackSingleContactDeal_def)
qed

lemma fallback_lookup_failure:
  assumes "getEmailContactAssociations w tr e = (Inr (pre @ a # post), tr1)"
    and "fallbackContacts w tr1 pre = (Inr None, tr2)"
    and "getContactDealAssociations w tr2 (toObjectId a) = (Inl msg, tr3)"
  shows "fallbackSingleContactDeal w tr e = (None, tr3 @ [Log (LogFallbackError msg)])"
proof -
  have "fallbackContacts w tr1 (pre @ a # post) = fallbackContacts w tr2 (a # post)"
    using assms(2) by (rule fallbackContacts_append)
  also have "\<dots> = (Inl msg, tr3)"
    using assms(3) by (rule fallbackContacts_error)
  finally show ?thesis using assms(1) by (simp add: fallbackSingleContactDeal_def)
qed

lemma fallback_Some:
  assumes "fallbackSingleContactDeal w tr e = (Some m, tr')"
  shows "confidence m = 100 \<and> matchType m = Single_contact_deal"
proof -
  from assms obtain cs tr1 tr2 where "fallbackContacts w tr1 cs = (Inr (Some m), tr2)"
    by (auto simp: fallbackSingleContactDeal_def split: prod.splits sum.splits if_splits)
  from fallbackContacts_Some [OF this] show ?thesis by simp
qed

section \<open>What each part adds to the trace\<close>









section \<open>Properties of the per-email processing\<close>






section \<open>Properties of the retry loop and of the event filter\<close>








lemma uniqueEvents_distinct:
  "distinct (map objectId (uniqueEvents seen evts)) \<and> objectId ` set (uniqueEvents seen evts) \<inter> seen = {}"
  by (induction evts arbitrary: seen) auto

text \<open>
  What the filter keeps is an email event that is not the change of another property, and no two
  kept events share an object identifier: of three events, two of them for the same email, two
  are kept.
\<close>

lemma uniqueEvents_kept:
  "evt \<in> set (uniqueEvents seen evts) \<Longrightarrow>
     evt \<in> set evts \<and> objectTypeId evt = ''0-49''
     \<and> \<not> (subscriptionType evt = ''object.propertyChange''
            \<and> propertyName evt \<noteq> Some ''hs_email_direction'')
     \<and> objectId evt \<notin> seen"
  by (induction evts arbitrary: seen) (auto split: if_splits)

lemma uniqueEvents_three:
  "uniqueEvents {} [sample_event 5, sample_event 6, sample_event 5] =
     [sample_event 5, sample_event 6]"
  by (simp add: sample_event_def)

section \<open>The claims of the specification\<close>

lemma fallback_Some_contact:
  assumes "fallbackSingleContactDeal w tr e = (Some m, tr')"
  shows "\<exists>cs tr0. getEmailContactAssociations w tr e = (Inr cs, tr0)
           \<and> (\<exists>a \<in> set cs. \<exists>t1 t2 t3 da.
                 getContactDealAssociations w t1 (toObjectId a) = (Inr [da], t2)
                 \<and> batchGetDeals w t2 [toObjectId da] = (Inr [deal m], t3))"
proof -
  obtain r tr0 where g: "getEmailContactAssociations w tr e = (r, tr0)"
    by (cases "getEmailContactAssociations w tr e")
  with assms obtain cs where r: "r = Inr cs"
    by (cases r) (auto simp: fallbackSingleContactDeal_def)
  with assms g obtain tr2 where "fallbackContacts w tr0 cs = (Inr (Some m), tr2)"
    by (auto simp: fallbackSingleContactDeal_def split: prod.splits sum.splits if_splits)
  from fallbackContacts_Some [OF this] g r show ?thesis by blast
qed

text \<open>
  Claim C1. When the list of extracted loan numbers is not empty and, in the loop over it, the
  search for a loan number (the searches for the numbers before it having returned no deal in an
  allowed stage) returns a result that is not empty after the filter to the allowed stages,
  \<open>findMatch\<close> returns the first deal of that filtered result with confidence 100 and match type
  \<open>loan_number\<close>, and the only calls it has made are the loan-number searches up to that one: the
  deal-name and address channels search nothing.
\<close>

theorem loan_number_hit_returns_at_once:
  assumes "loanNumbers p = pre @ ln # post"
    and "loanChannel w tr pre = (Inr None, tr1)"
    and "searchDealsByLoanNumber w tr1 ln = (Inr deals, tr2)"
    and "filter isTargetStage deals = d # ds"
  shows "findMatch w tr p =
           (Inr (Some \<lparr>deal = d, confidence = 100, matchType = Loan_number\<rparr>),
            tr @ map SearchLoan (pre @ [ln]))"
  using assms by (rule findMatch_loan_hit)

theorem loan_number_hit_returns_at_once_witness:
  "findMatch sample_world [] sample_parsed =
     (Inr (Some \<lparr>deal = good_deal, confidence = 100, matchType = Loan_number\<rparr>),
      [SearchLoan ''111'', SearchLoan ''222''])"
proof -
  have 1: "loanNumbers sample_parsed = [''111''] @ ''222'' # []"
    by (simp add: sample_parsed_def)
  have 2: "loanChannel sample_world [] [''111''] = (Inr None, [SearchLoan ''111''])"
    by code_simp
  have 3: "searchDealsByLoanNumber sample_world [SearchLoan ''111''] ''222'' =
             (Inr [lost_deal, good_deal], [SearchLoan ''111'', SearchLoan ''222''])"
    by code_simp
  have 4: "filter isTargetStage [lost_deal, good_deal] = good_deal # []"
    by code_simp
  from loan_number_hit_returns_at_once [OF 1 2 3 4] show ?thesis by simp
qed



text \<open>
  Claim C3. A match whose deal is in a stage outside the allowed set is never what the loan-number
  channel returns, never what the scoring of the pooled deal-name and address candidates picks,
  and never what \<open>findMatch\<close> returns, whatever the texts of the deal and of the email are.
\<close>

theorem disallowed_stage_never_returned:
  assumes "\<not> isTargetStage (deal m)"
  shows "fst (loanChannel w tr lns) \<noteq> Inr (Some m)
         \<and> pickBest cs p \<noteq> Some m
         \<and> fst (findMatch w tr p) \<noteq> Inr (Some m)"
proof -
  have 1: "fst (loanChannel w tr lns) \<noteq> Inr (Some m)"
  proof
    assume "fst (loanChannel w tr lns) = Inr (Some m)"
    then have "loanChannel w tr lns = (Inr (Some m), snd (loanChannel w tr lns))"
      by (metis prod.collapse)
    from loanChannel_Some [OF this] assms show False by simp
  qed
  have 2: "pickBest cs p \<noteq> Some m"
    using pickBest_Some [of cs p m] assms by blast
  have 3: "fst (findMatch w tr p) \<noteq> Inr (Some m)"
  proof
    assume "fst (findMatch w tr p) = Inr (Some m)"
    then have "findMatch w tr p = (Inr (Some m), snd (findMatch w tr p))"
      by (metis prod.collapse)
    from findMatch_Some [OF this] assms show False by simp
  qed
  from 1 2 3 show ?thesis by simp
qed

theorem disallowed_stage_never_returned_witness:
  "\<not> isTargetStage lost_deal
   \<and> fst (findMatch sample_world []
            \<lparr>loanNumbers = [], addresses = [], dealNames = [''168 Las Palmas'']\<rparr>)
     \<noteq> Inr (Some \<lparr>deal = lost_deal, confidence = 95, matchType = Deal_name\<rparr>)"
proof -
  have h: "\<not> isTargetStage (deal \<lparr>deal = lost_deal, confidence = 95, matchType = Deal_name\<rparr>)"
    by code_simp
  from disallowed_stage_never_returned [OF h] h show ?thesis by simp
qed

text \<open>
  Claim C4, as the code has it. When the lookup of the deals of a contact fails in the fallback
  resolver (the contacts before it having been passed over without a match), a failure whose
  message holds \<open>404\<close> counts as a contact with no deal and the evaluation goes on with the next
  contact; any other failure is caught and logged by the resolver, which returns no match at once:
  the trace ends with the failed lookup and its log line, and no later contact is looked up.
\<close>

theorem lookup_failure_ends_resolver:
  assumes "getEmailContactAssociations w tr e = (Inr (pre @ a # post), tr1)"
    and "fallbackContacts w tr1 pre = (Inr None, tr2)"
    and "contact_deals_reply w tr2 (toObjectId a) = Inl msg"
  shows "fallbackSingleContactDeal w tr e =
           (if str_includes msg ''404''
            then (case fallbackContacts w (tr2 @ [ContactDeals (toObjectId a)]) post of
                    (Inl e', t) \<Rightarrow> (None, t @ [Log (LogFallbackError e')])
                  | (Inr m, t) \<Rightarrow> (m, t))
            else (None, tr2 @ [ContactDeals (toObjectId a), Log (LogFallbackError msg)]))"
proof (cases "str_includes msg ''404''")
  case True
  with assms(3) have g: "getContactDealAssociations w tr2 (toObjectId a)
                         = (Inr [], tr2 @ [ContactDeals (toObjectId a)])"
    by (simp add: getContactDealAssociations_def)
  have "fallbackContacts w tr1 (pre @ a # post) = fallbackContacts w tr2 (a # post)"
    using assms(2) by (rule fallbackContacts_append)
  also have "\<dots> = fallbackContacts w (tr2 @ [ContactDeals (toObjectId a)]) post"
    using fallbackContacts_skip [OF g, of post] by simp
  finally show ?thesis using assms(1) True by (simp add: fallbackSingleContactDeal_def)
next
  case False
  with assms(3) have g: "getContactDealAssociations w tr2 (toObjectId a)
                         = (Inl msg, tr2 @ [ContactDeals (toObjectId a)])"
    by (simp add: getContactDealAssociations_def)
  from fallback_lookup_failure [OF assms(1,2) g] False show ?thesis by simp
qed

theorem lookup_failure_ends_resolver_witness:
  "fallbackSingleContactDeal sample_world [] 4 =
     (None, [EmailContacts 4, ContactDeals 13,
             Log (LogFallbackError ''HubSpot API Error (500): internal error'')])
   \<and> fallbackSingleContactDeal sample_world [] 5 =
     (Some \<lparr>deal = lost_deal, confidence = 100, matchType = Single_contact_deal\<rparr>,
      [EmailContacts 5, ContactDeals 14, ContactDeals 12, BatchRead [73],
       Log (LogFallbackMatch 12 (Some ''168 Las Palmas''))])"
proof -
  have a1: "getEmailContactAssociations sample_world [] 4
            = (Inr ([] @ Assoc 13 # [Assoc 12]), [EmailContacts 4])"
    by code_simp
  have a2: "fallbackContacts sample_world [EmailContacts 4] [] = (Inr None, [EmailContacts 4])"
    by simp
  have a3: "contact_deals_reply sample_world [EmailContacts 4] (toObjectId (Assoc 13))
            = Inl ''HubSpot API Error (500): internal error''"
    by code_simp
  have a4: "\<not> str_includes ''HubSpot API Error (500): internal error'' ''404''"
    by code_simp
  have b1: "getEmailContactAssociations sample_world [] 5
            = (Inr ([] @ Assoc 14 # [Assoc 12]), [EmailContacts 5])"
    by code_simp
  have b2: "fallbackContacts sample_world [EmailContacts 5] [] = (Inr None, [EmailContacts 5])"
    by simp
  have b3: "contact_deals_reply sample_world [EmailContacts 5] (toObjectId (Assoc 14))
            = Inl ''HubSpot API Error (404): not found''"
    by code_simp
  have b4: "str_includes ''HubSpot API Error (404): not found'' ''404''"
    by code_simp
  have b5: "fallbackContacts sample_world ([EmailContacts 5] @ [ContactDeals (toObjectId (Assoc 14))])
              [Assoc 12]
            = (Inr (Some \<lparr>deal = lost_deal, confidence = 100, matchType = Single_contact_deal\<rparr>),
               [EmailContacts 5, ContactDeals 14, ContactDeals 12, BatchRead [73],
                Log (LogFallbackMatch 12 (Some ''168 Las Palmas''))])"
    by code_simp
  from lookup_failure_ends_resolver [OF a1 a2 a3] a4
    lookup_failure_ends_resolver [OF b1 b2 b3] b4 b5
  show ?thesis by simp
qed

theorem lookup_failure_counterexample:
  "fallbackSingleContactDeal sample_world [] 4 =
     (None, [EmailContacts 4, ContactDeals 13,
             Log (LogFallbackError ''HubSpot API Error (500): internal error'')])
   \<and> fst (fallbackContacts sample_world [EmailContacts 4, ContactDeals 13] [Assoc 12]) =
       Inr (Some \<lparr>deal = lost_deal, confidence = 100, matchType = Single_contact_deal\<rparr>)"
  by code_simp

text \<open>
  Claim C5, as the code has it. The fallback resolver goes through the contacts of the email in
  association order. The first contact whose lookup returns exactly one associated deal, and whose
  deal the batched read returns as exactly one record, gives the match: that record, confidence
  100, match type \<open>single_contact_deal\<close>. A contact with no deal or with two or more deals is
  passed over, and so is a contact whose single deal the batched read does not return as one
  record; the next contact is tried. A match is only ever returned for a contact of the email with
  exactly one associated deal that was read as one record, so when no contact qualifies there is
  no match.
\<close>

theorem fallback_resolver_rule:
  "(getEmailContactAssociations w tr e = (Inr (pre @ a # post), tr1)
      \<and> fallbackContacts w tr1 pre = (Inr None, tr2)
      \<and> getContactDealAssociations w tr2 (toObjectId a) = (Inr [da], tr3)
      \<and> batchGetDeals w tr3 [toObjectId da] = (Inr [d], tr4)
    \<longrightarrow> fallbackSingleContactDeal w tr e =
          (Some \<lparr>deal = d, confidence = 100, matchType = Single_contact_deal\<rparr>,
           tr4 @ [Log (LogFallbackMatch (toObjectId a) (dealname d))]))
   \<and> (getContactDealAssociations w sr (toObjectId b) = (Inr das, sr1) \<and> length das \<noteq> 1
    \<longrightarrow> fallbackContacts w sr (b # rest) =
          fallbackContacts w
            (if das = [] then sr1 else sr1 @ [Log (LogFallbackSkip (toObjectId b) (length das))])
            rest)
   \<and> (getContactDealAssociations w ur (toObjectId c) = (Inr [dc], ur1)
      \<and> batchGetDeals w ur1 [toObjectId dc] = (Inr deals, ur2) \<and> length deals \<noteq> 1
    \<longrightarrow> fallbackContacts w ur (c # rest') = fallbackContacts w ur2 rest')
   \<and> (fallbackSingleContactDeal w vr e' = (Some m, vr')
    \<longrightarrow> confidence m = 100 \<and> matchType m = Single_contact_deal
        \<and> (\<exists>cs vr0. getEmailContactAssociations w vr e' = (Inr cs, vr0)
             \<and> (\<exists>a' \<in> set cs. \<exists>t1 t2 t3 da'.
                   getContactDealAssociations w t1 (toObjectId a') = (Inr [da'], t2)
                   \<and> batchGetDeals w t2 [toObjectId da'] = (Inr [deal m], t3))))"
  using fallback_first_qualifying [of w tr e pre a post tr1 tr2 da tr3 d tr4]
    fallbackContacts_skip [of w sr b das sr1 rest]
    fallbackContacts_unreadable [of w ur c dc ur1 deals ur2 rest']
    fallback_Some [of w vr e' m vr'] fallback_Some_contact [of w vr e' m vr']
  by blast

theorem fallback_resolver_rule_witness:
  "fallbackSingleContactDeal sample_world [] 3 =
     (Some \<lparr>deal = lost_deal, confidence = 100, matchType = Single_contact_deal\<rparr>,
      [EmailContacts 3, ContactDeals 10, BatchRead [75], ContactDeals 11,
       Log (LogFallbackSkip 11 2), ContactDeals 12, BatchRead [73],
       Log (LogFallbackMatch 12 (Some ''168 Las Palmas''))])
   \<and> fallbackContacts sample_world [] [Assoc 11, Assoc 12] =
       fallbackContacts sample_world [ContactDeals 11, Log (LogFallbackSkip 11 2)] [Assoc 12]
   \<and> fallbackContacts sample_world [] [Assoc 10, Assoc 12] =
       fallbackContacts sample_world [ContactDeals 10, BatchRead [75]] [Assoc 12]"
proof -
  have a1: "getEmailContactAssociations sample_world [] 3 =
              (Inr ([Assoc 10, Assoc 11] @ Assoc 12 # []), [EmailContacts 3])"
    by code_simp
  have a2: "fallbackContacts sample_world [EmailContacts 3] [Assoc 10, Assoc 11] =
              (Inr None, [EmailContacts 3, ContactDeals 10, BatchRead [75], ContactDeals 11,
                          Log (LogFallbackSkip 11 2)])"
    by code_simp
  have a3: "getContactDealAssociations sample_world
              [EmailContacts 3, ContactDeals 10, BatchRead [75], ContactDeals 11,
               Log (LogFallbackSkip 11 2)] (toObjectId (Assoc 12)) =
              (Inr [Assoc 73],
               [EmailContacts 3, ContactDeals 10, BatchRead [75], ContactDeals 11,
                Log (LogFallbackSkip 11 2), ContactDeals 12])"
    by code_simp
  have a4: "batchGetDeals sample_world
              [EmailContacts 3, ContactDeals 10, BatchRead [75], ContactDeals 11,
               Log (LogFallbackSkip 11 2), ContactDeals 12] [toObjectId (Assoc 73)] =
              (Inr [lost_deal],
               [EmailContacts 3, ContactDeals 10, BatchRead [75], ContactDeals 11,
                Log (LogFallbackSkip 11 2), ContactDeals 12, BatchRead [73]])"
    by code_simp
  have b1: "getContactDealAssociations sample_world [] (toObjectId (Assoc 11)) =
              (Inr [Assoc 70, Assoc 73], [ContactDeals 11])"
    by code_simp
  have c1: "getContactDealAssociations sample_world [] (toObjectId (Assoc 10)) =
              (Inr [Assoc 75], [ContactDeals 10])"
    by code_simp
  have c2: "batchGetDeals sample_world [ContactDeals 10] [toObjectId (Assoc 75)] =
              (Inr [], [ContactDeals 10, BatchRead [75]])"
    by code_simp
  have d1: "dealname lost_deal = Some ''168 Las Palmas''"
    by (simp add: lost_deal_def)
  have b2: "length [Assoc 70, Assoc 73] \<noteq> 1" and c3: "length ([] :: deal_record list) \<noteq> 1"
    by simp_all
  have r1: "fallbackSingleContactDeal sample_world [] 3 =
              (Some \<lparr>deal = lost_deal, confidence = 100, matchType = Single_contact_deal\<rparr>,
               [EmailContacts 3, ContactDeals 10, BatchRead [75], ContactDeals 11,
                Log (LogFallbackSkip 11 2), ContactDeals 12, BatchRead [73]]
               @ [Log (LogFallbackMatch (toObjectId (Assoc 12)) (dealname lost_deal))])"
    using fallback_resolver_rule [THEN conjunct1, THEN mp,
        OF conjI [OF a1 conjI [OF a2 conjI [OF a3 a4]]]] .
  have r2: "fallbackContacts sample_world [] (Assoc 11 # [Assoc 12]) =
              fallbackContacts sample_world
                (if [Assoc 70, Assoc 73] = [] then [ContactDeals 11]
                 else [ContactDeals 11]
                      @ [Log (LogFallbackSkip (toObjectId (Assoc 11)) (length [Assoc 70, Assoc 73]))])
                [Assoc 12]"
    using fallback_resolver_rule [THEN conjunct2, THEN conjunct1, THEN mp, OF conjI [OF b1 b2]] .
  have r3: "fallbackContacts sample_world [] (Assoc 10 # [Assoc 12]) =
              fallbackContacts sample_world [ContactDeals 10, BatchRead [75]] [Assoc 12]"
    using fallback_resolver_rule [THEN conjunct2, THEN conjunct2, THEN conjunct1, THEN mp,
        OF conjI [OF c1 conjI [OF c2 c3]]] .
  from r1 r2 r3 d1 show ?thesis by (simp del: fallbackContacts.simps add: numeral_2_eq_2)
qed

theorem first_single_deal_contact_counterexample:
  "getEmailContactAssociations sample_world [] 3 =
     (Inr [Assoc 10, Assoc 11, Assoc 12], [EmailContacts 3])
   \<and> getContactDealAssociations sample_world [EmailContacts 3] 10 =
     (Inr [Assoc 75], [EmailContacts 3, ContactDeals 10])
   \<and> fst (fallbackSingleContactDeal sample_world [] 3) =
     Some \<lparr>deal = lost_deal, confidence = 100, matchType = Single_contact_deal\<rparr>
   \<and> deal_id lost_deal = 73"
  by code_simp




text \<open>
  Claim C8. The filter over the batch keeps an event of an email record unless it reports the
  change of a property other than the email direction; it does not ask for the change to be a
  creation. An event that reports the deletion of an email is therefore kept and processed: its
  email is fetched.
\<close>

theorem deletion_event_is_processed:
  "objectTypeId (deletion_event 7) = ''0-49''
   \<and> subscriptionType (deletion_event 7) = ''object.deletion''
   \<and> uniqueEvents {} [deletion_event 7] = [deletion_event 7]
   \<and> filter isGetEmail
       (snd (handler sample_world sample_parse (Some ''key'') []
               \<lparr>httpMethod = ''POST'', body = Inr [deletion_event 7]\<rparr>)) = [GetEmail 7]"
  by code_simp



text \<open>
  Claim C10. The fallback resolver does not look at the stage of the deal. For an email for which
  \<open>findMatch\<close> finds nothing and whose first qualifying contact has exactly one associated deal,
  read as the record \<open>d\<close>, the resolver returns \<open>d\<close> with confidence 100 and the handler writes
  the association of the email with \<open>d\<close>, recording the result when the write succeeds. Nothing
  is assumed about the stage of \<open>d\<close>: this holds for a deal outside the allowed stages as well.
\<close>

theorem fallback_match_committed_whatever_stage:
  assumes "getEmail w (tr @ [Log (LogProcessingEmail e)]) e = (Inr email, tr1)"
    and "findMatch w (tr1 @ [logParsed (parseFetched parse email)]) (parseFetched parse email)
         = (Inr None, tr2)"
    and "getEmailContactAssociations w tr2 e = (Inr (pre @ a # post), tr3)"
    and "fallbackContacts w tr3 pre = (Inr None, tr4)"
    and "getContactDealAssociations w tr4 (toObjectId a) = (Inr [da], tr5)"
    and "batchGetDeals w tr5 [toObjectId da] = (Inr [d], tr6)"
  shows "fallbackSingleContactDeal w tr2 e =
           (Some \<lparr>deal = d, confidence = 100, matchType = Single_contact_deal\<rparr>,
            tr6 @ [Log (LogFallbackMatch (toObjectId a) (dealname d))])
         \<and> processEmail w parse tr e =
           (case associate_reply w
                   (tr6 @ [Log (LogFallbackMatch (toObjectId a) (dealname d)),
                           Log (LogMatched e (dealname d) 100 Single_contact_deal)])
                   e (deal_id d) of
              Inl msg \<Rightarrow>
                (None,
                 tr6 @ [Log (LogFallbackMatch (toObjectId a) (dealname d)),
                        Log (LogMatched e (dealname d) 100 Single_contact_deal),
                        Associate e (deal_id d), Log (LogEmailError e msg)])
            | Inr _ \<Rightarrow>
                (Some \<lparr>res_emailId = e, res_dealId = deal_id d, res_dealName = dealname d,
                       res_confidence = 100, res_matchType = Single_contact_deal,
                       res_success = True\<rparr>,
                 tr6 @ [Log (LogFallbackMatch (toObjectId a) (dealname d)),
                        Log (LogMatched e (dealname d) 100 Single_contact_deal),
                        Associate e (deal_id d), Sleep 200]))"
proof -
  have f: "fallbackSingleContactDeal w tr2 e =
             (Some \<lparr>deal = d, confidence = 100, matchType = Single_contact_deal\<rparr>,
              tr6 @ [Log (LogFallbackMatch (toObjectId a) (dealname d))])"
    using assms(3-6) by (rule fallback_first_qualifying)
  show ?thesis
    using assms(1,2) f
    by (simp add: processEmail_def processEmail_try_def associateEmailToDeal_def Let_def
        split: sum.splits)
qed

theorem fallback_match_committed_whatever_stage_witness:
  "\<not> isTargetStage lost_deal
   \<and> processEmail sample_world sample_parse [] 3 =
     (Some \<lparr>res_emailId = 3, res_dealId = 73, res_dealName = Some ''168 Las Palmas'',
            res_confidence = 100, res_matchType = Single_contact_deal, res_success = True\<rparr>,
      [Log (LogProcessingEmail 3), GetEmail 3, Log (LogParsed 0 0 0), EmailContacts 3,
       ContactDeals 10, BatchRead [75], ContactDeals 11, Log (LogFallbackSkip 11 2),
       ContactDeals 12, BatchRead [73], Log (LogFallbackMatch 12 (Some ''168 Las Palmas'')),
       Log (LogMatched 3 (Some ''168 Las Palmas'') 100 Single_contact_deal),
       Associate 3 73, Sleep 200])"
proof -
  define email where "email = \<lparr>hs_email_subject = Some ''hello'', hs_email_text = Some ''see you'',
                                hs_email_html = None\<rparr>"
  have p: "parseFetched sample_parse email = \<lparr>loanNumbers = [], addresses = [], dealNames = []\<rparr>"
    unfolding email_def by code_simp
  have 1: "getEmail sample_world ([] @ [Log (LogProcessingEmail 3)]) 3 =
             (Inr email, [Log (LogProcessingEmail 3), GetEmail 3])"
    unfolding email_def by code_simp
  have 2: "findMatch sample_world
             ([Log (LogProcessingEmail 3), GetEmail 3] @ [logParsed (parseFetched sample_parse email)])
             (parseFetched sample_parse email) =
             (Inr None, [Log (LogProcessingEmail 3), GetEmail 3, Log (LogParsed 0 0 0)])"
    unfolding p by code_simp
  have 3: "getEmailContactAssociations sample_world
             [Log (LogProcessingEmail 3), GetEmail 3, Log (LogParsed 0 0 0)] 3 =
             (Inr ([Assoc 10, Assoc 11] @ Assoc 12 # []),
              [Log (LogProcessingEmail 3), GetEmail 3, Log (LogParsed 0 0 0), EmailContacts 3])"
    by code_simp
  have 4: "fallbackContacts sample_world
             [Log (LogProcessingEmail 3), GetEmail 3, Log (LogParsed 0 0 0), EmailContacts 3]
             [Assoc 10, Assoc 11] =
             (Inr None,
              [Log (LogProcessingEmail 3), GetEmail 3, Log (LogParsed 0 0 0), EmailContacts 3,
               ContactDeals 10, BatchRead [75], ContactDeals 11, Log (LogFallbackSkip 11 2)])"
    by code_simp
  have 5: "getContactDealAssociations sample_world
             [Log (LogProcessingEmail 3), GetEmail 3, Log (LogParsed 0 0 0), EmailContacts 3,
              ContactDeals 10, BatchRead [75], ContactDeals 11, Log (LogFallbackSkip 11 2)]
             (toObjectId (Assoc 12)) =
             (Inr [Assoc 73],
              [Log (LogProcessingEmail 3), GetEmail 3, Log (LogParsed 0 0 0), EmailContacts 3,
               ContactDeals 10, BatchRead [75], ContactDeals 11, Log (LogFallbackSkip 11 2),
               ContactDeals 12])"
    by code_simp
  have 6: "batchGetDeals sample_world
             [Log (LogProcessingEmail 3), GetEmail 3, Log (LogParsed 0 0 0), EmailContacts 3,
              ContactDeals 10, BatchRead [75], ContactDeals 11, Log (LogFallbackSkip 11 2),
              ContactDeals 12] [toObjectId (Assoc 73)] =
             (Inr [lost_deal],
              [Log (LogProcessingEmail 3), GetEmail 3, Log (LogParsed 0 0 0), EmailContacts 3,
               ContactDeals 10, BatchRead [75], ContactDeals 11, Log (LogFallbackSkip 11 2),
               ContactDeals 12, BatchRead [73]])"
    by code_simp
  have 7: "\<not> isTargetStage lost_deal"
    by code_simp
  have 8: "associate_reply sample_world t 3 (deal_id lost_deal) = Inr ()" for t
    by (simp add: sample_world_def)
  have 9: "dealname lost_deal = Some ''168 Las Palmas''" "deal_id lost_deal = 73"
    by (simp_all add: lost_deal_def)
  from fallback_match_committed_whatever_stage [OF 1 2 3 4 5 6] 7 8 9
  show ?thesis by simp
qed


end
